theory Spec2Isabelle
  imports Complex_Main "HOL-Library.Word"
begin

section \<open>The hardware seen by the sketch\<close>

text \<open>
  The sketch drives three output lines of a ClearPath motor through the Arduino
  primitives \<open>pinMode\<close>, \<open>digitalWrite\<close> and \<open>delay\<close>. The state of the
  hardware is the level last written to every pin together with the log of all
  primitive calls made so far, oldest first. Every primitive appends one event.
\<close>

datatype level = LOW | HIGH

datatype pin_mode = OUTPUT | INPUT_PULLUP

type_synonym pin = int

datatype event =
    PinMode pin pin_mode
  | SerialBegin nat
  | DigitalWrite pin level
  | Delay nat

record hw =
  pins :: "pin \<Rightarrow> level"
  trace :: "event list"

definition pinMode :: "pin \<Rightarrow> pin_mode \<Rightarrow> hw \<Rightarrow> hw" where
  "pinMode p m s = s\<lparr>trace := trace s @ [PinMode p m]\<rparr>"

definition Serial_begin :: "nat \<Rightarrow> hw \<Rightarrow> hw" where
  "Serial_begin baud s = s\<lparr>trace := trace s @ [SerialBegin baud]\<rparr>"

definition digitalWrite :: "pin \<Rightarrow> level \<Rightarrow> hw \<Rightarrow> hw" where
  "digitalWrite p v s = s\<lparr>pins := (pins s)(p := v), trace := trace s @ [DigitalWrite p v]\<rparr>"

text \<open>\<open>delay\<close> takes an \<open>unsigned long\<close> number of milliseconds.\<close>

definition delay :: "nat \<Rightarrow> hw \<Rightarrow> hw" where
  "delay ms s = s\<lparr>trace := trace s @ [Delay ms]\<rparr>"

text \<open>Statements executed one after the other.\<close>

fun in_order :: "(hw \<Rightarrow> hw) list \<Rightarrow> hw \<Rightarrow> hw" where
  "in_order [] s = s"
| "in_order (f # fs) s = in_order fs (f s)"

text \<open>A board just powered on: nothing written yet.\<close>

definition level_unset :: "pin \<Rightarrow> level" where
  "level_unset p = LOW"

definition power_on :: hw where
  "power_on = \<lparr>pins = level_unset, trace = []\<rparr>"

section \<open>Pin numbers and configuration\<close>

definition Enable :: pin where "Enable = 6"
definition Eneg :: pin where "Eneg = 7"
definition InputA :: pin where "InputA = 8"
definition Aneg :: pin where "Aneg = 10"
definition InputB :: pin where "InputB = 9"
definition Bneg :: pin where "Bneg = 11"
definition HLFB :: pin where "HLFB = 4"
definition Hneg :: pin where "Hneg = 5"

text \<open>
  The global variables of the sketch, which the user sets to match the motor's
  settings. Each field holds the value of the \<open>int\<close> variable; no arithmetic is
  done on them in the type \<open>int\<close>.
\<close>

record config =
  DwellTime :: int
  HomeTime :: int
  MinAltPulse :: int
  ReverseDirection :: bool

definition default_config :: config where
  "default_config =
     \<lparr>DwellTime = 1000, HomeTime = 10000, MinAltPulse = 10, ReverseDirection = False\<rparr>"

section \<open>Conversions and the \<open>abs\<close> macro\<close>

text \<open>
  An \<open>int\<close> passed to \<open>delay\<close> is converted to \<open>unsigned long\<close> (32 bits):
  the value modulo \<open>2 ^ 32\<close>.
\<close>

definition ulong_of_int :: "int \<Rightarrow> nat" where
  "ulong_of_int x = nat (x mod 2 ^ 32)"

text \<open>
  \<open>MinAltPulse*1.5\<close> is computed in \<open>double\<close>; the product of an \<open>int\<close> and 1.5
  is exactly representable, so it is the rational number below. Passing it to
  \<open>delay\<close> converts it to \<open>unsigned long\<close>, which drops the fractional part.
  C++ defines the conversion for non-negative values only.
\<close>

definition times_1_5 :: "int \<Rightarrow> rat" where
  "times_1_5 x = of_int x * (3 / 2)"

definition ulong_of_double :: "rat \<Rightarrow> nat" where
  "ulong_of_double x = nat \<lfloor>x\<rfloor>"

text \<open>
  The parameter \<open>distance\<close> and the loop counter are of type \<open>int\<close>, a signed
  machine integer whose width \<open>LENGTH('a)\<close> depends on the board (16 bits on AVR
  boards, 32 bits on ARM boards). \<open>abs\<close> is the Arduino core's macro
  \<open>#define abs(x) ((x)>0?(x):-(x))\<close>, with the negation in two's complement.
\<close>

definition abs_int :: "'a::len word \<Rightarrow> 'a word" where
  "abs_int x = (if 0 <s x then x else - x)"

text \<open>The least value of the type \<open>int\<close>.\<close>

definition INT_MIN :: "'a::len word" where
  "INT_MIN = - (2 ^ (LENGTH('a) - 1))"

section \<open>MoveCommand\<close>

text \<open>The loop \<open>for(int count=0;count<abs(distance);count++)\<close> with its bound \<open>n\<close>.\<close>

function pulse_loop :: "'a::len word \<Rightarrow> 'a word \<Rightarrow> hw \<Rightarrow> hw" where
  "pulse_loop count n s =
     (if count <s n
      then pulse_loop (count + 1) n (in_order [digitalWrite InputB HIGH, digitalWrite InputB LOW] s)
      else s)"
  by pat_completeness auto
termination
proof (relation "measure (\<lambda>(count, n, s). nat (sint n - sint count))")
  show "wf (measure (\<lambda>(count :: 'a word, n :: 'a word, s :: hw). nat (sint n - sint count)))"
    by simp
next
  fix count n :: "'a word" and s :: hw
  assume "count <s n"
  then have lt: "sint count < sint n"
    by (simp add: word_sless_alt)
  have hi: "sint n < 2 ^ (LENGTH('a) - 1)"
    by (rule sint_lt)
  have lo: "- (2 ^ (LENGTH('a) - 1)) \<le> sint count"
    by (rule sint_ge)
  have "count + 1 = word_of_int (sint count + 1)"
    by simp
  then have "sint (count + 1) = signed_take_bit (LENGTH('a) - 1) (sint count + 1)"
    by (simp only: sint_sbintrunc')
  also have "\<dots> = sint count + 1"
    using lt hi lo by (intro signed_take_bit_int_eq_self) linarith+
  finally have "sint (count + 1) = sint count + 1" .
  with lt show "((count + 1, n, in_order [digitalWrite InputB HIGH, digitalWrite InputB LOW] s), (count, n, s))
      \<in> measure (\<lambda>(count, n, s). nat (sint n - sint count))"
    by simp
qed

declare pulse_loop.simps [simp del]

definition MoveCommand :: "config \<Rightarrow> 'a::len word \<Rightarrow> bool \<Rightarrow> hw \<Rightarrow> hw" where
  "MoveCommand cfg distance AltSpeed =
     in_order [
       (if AltSpeed
        then in_order [digitalWrite Enable LOW,
                       delay (ulong_of_double (times_1_5 (MinAltPulse cfg))),
                       digitalWrite Enable HIGH,
                       delay (ulong_of_double (times_1_5 (MinAltPulse cfg)))]
        else in_order []),
       (if distance <s 0 \<and> \<not> ReverseDirection cfg \<or> 0 <s distance \<and> ReverseDirection cfg
        then digitalWrite InputA HIGH
        else digitalWrite InputA LOW),
       pulse_loop 0 (abs_int distance)]"

section \<open>setup and loop\<close>

definition setup_sketch :: "config \<Rightarrow> hw \<Rightarrow> hw" where
  "setup_sketch cfg =
     in_order [
       pinMode Enable OUTPUT,
       pinMode InputA OUTPUT,
       pinMode InputB OUTPUT,
       pinMode HLFB INPUT_PULLUP,
       pinMode Eneg OUTPUT,
       pinMode Aneg OUTPUT,
       pinMode Bneg OUTPUT,
       pinMode Hneg OUTPUT,
       Serial_begin 9600,
       digitalWrite Enable LOW,
       delay (ulong_of_int (DwellTime cfg)),
       digitalWrite Eneg LOW,
       digitalWrite Aneg LOW,
       digitalWrite Bneg LOW,
       digitalWrite Hneg LOW,
       digitalWrite InputA LOW,
       digitalWrite InputB LOW,
       digitalWrite Enable HIGH,
       delay (ulong_of_int (HomeTime cfg)),
       delay (ulong_of_int (DwellTime cfg))]"

text \<open>
  The body of \<open>loop\<close> is a straight line of two kinds of statement:
  \<open>MoveCommand(d, a)\<close> with a literal distance (\<open>a\<close> is the default \<open>0\<close> of the
  prototype when omitted) and \<open>delay(DwellTime)\<close>.
\<close>

datatype stmt = Move int bool | Dwell

definition loop_body :: "stmt list" where
  "loop_body =
     [Move 1000 False, Dwell,
      Move (- 2000) True, Dwell,
      Move 3000 False, Dwell,
      Move (- 4000) False, Dwell,
      Move 5000 True, Dwell,
      Move (- 6000) False, Dwell,
      Move 7000 False, Dwell,
      Move (- 8000) True, Dwell,
      Move 9000 False, Dwell,
      Move (- 10000) False, Dwell,
      Move 9000 True,
      Move (- 8000) False, Dwell,
      Move 7000 False,
      Move (- 6000) True, Dwell,
      Move 5000 False,
      Move (- 4000) False, Dwell,
      Move 3000 True,
      Move (- 2000) False, Dwell,
      Move 1000 False, Dwell]"

text \<open>A literal is converted to the \<open>int\<close> of the board, whose width is \<open>LENGTH('a)\<close>.\<close>

fun exec_stmt :: "'a::len itself \<Rightarrow> config \<Rightarrow> stmt \<Rightarrow> hw \<Rightarrow> hw" where
  "exec_stmt T cfg (Move d a) = MoveCommand cfg (word_of_int d :: 'a word) a"
| "exec_stmt T cfg Dwell = delay (ulong_of_int (DwellTime cfg))"

definition exec_stmts :: "'a::len itself \<Rightarrow> config \<Rightarrow> stmt list \<Rightarrow> hw \<Rightarrow> hw" where
  "exec_stmts T cfg ss = in_order (map (exec_stmt T cfg) ss)"

definition loop :: "'a::len itself \<Rightarrow> config \<Rightarrow> hw \<Rightarrow> hw" where
  "loop T cfg = exec_stmts T cfg loop_body"

text \<open>The sketch after \<open>n\<close> rounds of \<open>loop\<close>.\<close>

definition sketch :: "'a::len itself \<Rightarrow> config \<Rightarrow> nat \<Rightarrow> hw \<Rightarrow> hw" where
  "sketch T cfg n s = (loop T cfg ^^ n) (setup_sketch cfg s)"

section \<open>The move table of the design comment\<close>

text \<open>
  The table in the comment at the head of the sketch, row by row: the distance, whether
  the row is marked \<open>(alt spd)\<close>, and whether the row is joined to the next by
  \<open>-->\<close> (one pulse stream immediately following the previous).
\<close>

definition move_table :: "(int \<times> bool \<times> bool) list" where
  "move_table =
     [(10, False, False),
      (- 20, True, False),
      (30, False, False),
      (- 40, False, False),
      (50, True, False),
      (- 60, False, False),
      (70, False, False),
      (- 80, True, False),
      (90, False, False),
      (- 100, False, False),
      (90, True, True), (- 80, False, False),
      (70, False, True), (- 60, True, False),
      (50, False, True), (- 40, False, False),
      (30, True, True), (- 20, False, False),
      (10, False, False)]"

text \<open>
  The statements a table stands for, with the distances in units of \<open>k\<close> pulses: one
  move per row, and a dwell after every row that is not joined to the next.
\<close>

fun calls_of_table :: "int \<Rightarrow> (int \<times> bool \<times> bool) list \<Rightarrow> stmt list" where
  "calls_of_table k [] = []"
| "calls_of_table k ((d, alt, joined) # rows) =
     (if joined then [Move (k * d) alt] else [Move (k * d) alt, Dwell]) @ calls_of_table k rows"

section \<open>Observing a run\<close>

text \<open>The events a piece of code appends to the trace when run from \<open>s\<close>.\<close>

definition emitted :: "(hw \<Rightarrow> hw) \<Rightarrow> hw \<Rightarrow> event list" where
  "emitted f s = drop (length (trace s)) (trace (f s))"

text \<open>The levels written to pin \<open>p\<close>, in order.\<close>

fun written :: "pin \<Rightarrow> event list \<Rightarrow> level list" where
  "written p [] = []"
| "written p (DigitalWrite q v # es) = (if q = p then v # written p es else written p es)"
| "written p (PinMode q m # es) = written p es"
| "written p (SerialBegin b # es) = written p es"
| "written p (Delay ms # es) = written p es"

text \<open>The pin levels after the events \<open>es\<close>, starting from the levels \<open>lv\<close>.\<close>

fun replay :: "event list \<Rightarrow> (pin \<Rightarrow> level) \<Rightarrow> (pin \<Rightarrow> level)" where
  "replay [] lv = lv"
| "replay (DigitalWrite q v # es) lv = replay es (lv(q := v))"
| "replay (PinMode q m # es) lv = replay es lv"
| "replay (SerialBegin b # es) lv = replay es lv"
| "replay (Delay ms # es) lv = replay es lv"

text \<open>One pulse on the pulse line: the body of the loop of \<open>MoveCommand\<close>.\<close>

definition one_pulse :: "hw \<Rightarrow> hw" where
  "one_pulse s = in_order [digitalWrite InputB HIGH, digitalWrite InputB LOW] s"

text \<open>A train of \<open>n\<close> pulses on the pulse line: HIGH then LOW, \<open>n\<close> times.\<close>

definition pulse_train :: "nat \<Rightarrow> event list" where
  "pulse_train n = concat (replicate n [DigitalWrite InputB HIGH, DigitalWrite InputB LOW])"

text \<open>The blip on the enable line that asks for the alternate speed, with each level held \<open>ms\<close>.\<close>

definition enable_blip :: "nat \<Rightarrow> event list" where
  "enable_blip ms = [DigitalWrite Enable LOW, Delay ms, DigitalWrite Enable HIGH, Delay ms]"

text \<open>The other level.\<close>

fun invert :: "level \<Rightarrow> level" where
  "invert LOW = HIGH"
| "invert HIGH = LOW"

text \<open>The events that are a write to an output line or a delay.\<close>

fun is_write_or_delay :: "event \<Rightarrow> bool" where
  "is_write_or_delay (DigitalWrite q v) = True"
| "is_write_or_delay (Delay ms) = True"
| "is_write_or_delay (PinMode q m) = False"
| "is_write_or_delay (SerialBegin b) = False"

section \<open>Basic facts\<close>

subsection \<open>The primitives\<close>

lemma trace_digitalWrite [simp]: "trace (digitalWrite p v s) = trace s @ [DigitalWrite p v]"
  by (simp add: digitalWrite_def)

lemma pins_digitalWrite [simp]: "pins (digitalWrite p v s) = (pins s)(p := v)"
  by (simp add: digitalWrite_def)

lemma trace_delay [simp]: "trace (delay ms s) = trace s @ [Delay ms]"
  by (simp add: delay_def)

lemma pins_delay [simp]: "pins (delay ms s) = pins s"
  by (simp add: delay_def)

lemma trace_pinMode [simp]: "trace (pinMode p m s) = trace s @ [PinMode p m]"
  by (simp add: pinMode_def)

lemma pins_pinMode [simp]: "pins (pinMode p m s) = pins s"
  by (simp add: pinMode_def)

lemma trace_Serial_begin [simp]: "trace (Serial_begin b s) = trace s @ [SerialBegin b]"
  by (simp add: Serial_begin_def)

lemma pins_Serial_begin [simp]: "pins (Serial_begin b s) = pins s"
  by (simp add: Serial_begin_def)

lemma emitted_append: "trace (f s) = trace s @ es \<Longrightarrow> emitted f s = es"
  by (simp add: emitted_def)

lemma pulse_train_0 [simp]: "pulse_train 0 = []"
  by (simp add: pulse_train_def)

lemma pulse_train_Suc:
  "pulse_train (Suc n) = DigitalWrite InputB HIGH # DigitalWrite InputB LOW # pulse_train n"
  by (simp add: pulse_train_def)

lemma trace_one_pulse: "trace (one_pulse s) = trace s @ [DigitalWrite InputB HIGH, DigitalWrite InputB LOW]"
  by (simp add: one_pulse_def)

lemma pins_one_pulse: "pins (one_pulse s) = (pins s)(InputB := LOW)"
  by (simp add: one_pulse_def)

subsection \<open>Signed machine arithmetic\<close>

lemma sint_succ_below:
  fixes count n :: "'a::len word"
  assumes "count <s n"
  shows "sint (count + 1) = sint count + 1"
proof -
  have lt: "sint count < sint n"
    using assms by (simp add: word_sless_alt)
  have hi: "sint n < 2 ^ (LENGTH('a) - 1)"
    by (rule sint_lt)
  have lo: "- (2 ^ (LENGTH('a) - 1)) \<le> sint count"
    by (rule sint_ge)
  have "count + 1 = word_of_int (sint count + 1)"
    by simp
  then have "sint (count + 1) = signed_take_bit (LENGTH('a) - 1) (sint count + 1)"
    by (simp only: sint_sbintrunc')
  also have "\<dots> = sint count + 1"
    using lt hi lo by (intro signed_take_bit_int_eq_self) linarith+
  finally show ?thesis .
qed

lemma neg_INT_MIN: "- (INT_MIN :: 'a::len word) = INT_MIN"
proof -
  have "Suc (LENGTH('a) - 1) = LENGTH('a)"
    by simp
  then have "2 * 2 ^ (LENGTH('a) - 1) = (2 :: 'a word) ^ LENGTH('a)"
    by (metis power_Suc)
  then have "(INT_MIN :: 'a word) + INT_MIN = 0"
    by (simp add: INT_MIN_def)
  then show ?thesis
    by (simp add: eq_neg_iff_add_eq_0)
qed

lemma sint_INT_MIN: "sint (INT_MIN :: 'a::len word) = - (2 ^ (LENGTH('a) - 1))"
proof -
  have "(INT_MIN :: 'a word) = word_of_int (- (2 ^ (LENGTH('a) - 1)))"
    by (simp add: INT_MIN_def)
  then have "sint (INT_MIN :: 'a word) = signed_take_bit (LENGTH('a) - 1) (- (2 ^ (LENGTH('a) - 1)))"
    by (metis sint_sbintrunc')
  also have "\<dots> = - (2 ^ (LENGTH('a) - 1))"
    by (intro signed_take_bit_int_eq_self) simp_all
  finally show ?thesis .
qed

lemma INT_MIN_negative: "(INT_MIN :: 'a::len word) <s 0"
  by (simp add: word_sless_alt sint_INT_MIN)

lemma INT_MIN_nonzero: "(INT_MIN :: 'a::len word) \<noteq> 0"
  using INT_MIN_negative [where 'a = 'a] by (auto simp: word_sless_alt)

lemma abs_int_INT_MIN: "abs_int (INT_MIN :: 'a::len word) = INT_MIN"
  using INT_MIN_negative [where 'a = 'a]
  by (simp add: abs_int_def neg_INT_MIN word_sless_alt)

lemma sint_neg:
  fixes x :: "'a::len word"
  assumes "x \<noteq> INT_MIN"
  shows "sint (- x) = - sint x"
proof -
  have "sint x \<noteq> sint (INT_MIN :: 'a word)"
    using assms by (auto dest: signed_word_eqI)
  then have ne: "sint x \<noteq> - (2 ^ (LENGTH('a) - 1))"
    by (simp add: sint_INT_MIN)
  have hi: "sint x < 2 ^ (LENGTH('a) - 1)"
    by (rule sint_lt)
  have lo: "- (2 ^ (LENGTH('a) - 1)) \<le> sint x"
    by (rule sint_ge)
  have "sint (- x) = signed_take_bit (LENGTH('a) - 1) (- sint x)"
    by (rule sint_word_minus)
  also have "\<dots> = - sint x"
    using ne hi lo by (intro signed_take_bit_int_eq_self) linarith+
  finally show ?thesis .
qed

lemma sint_abs_int:
  fixes x :: "'a::len word"
  assumes "x \<noteq> INT_MIN"
  shows "sint (abs_int x) = \<bar>sint x\<bar>"
  using sint_neg [OF assms] by (simp add: abs_int_def word_sless_alt)

lemma iterations_INT_MIN: "nat (sint (abs_int (INT_MIN :: 'a::len word))) = 0"
  by (simp add: abs_int_INT_MIN sint_INT_MIN)

lemma iterations_le: "nat (sint (abs_int x)) \<le> nat \<bar>sint x\<bar>"
  by (cases "x = INT_MIN") (simp_all add: iterations_INT_MIN sint_abs_int)

lemma iterations_bound:
  fixes d :: "'a::len word"
  shows "nat (sint (abs_int d)) < 2 ^ (LENGTH('a) - 1)"
proof -
  have "sint (abs_int d) < 2 ^ (LENGTH('a) - 1)"
    by (rule sint_lt)
  then show ?thesis
    by (simp add: nat_less_iff)
qed

subsection \<open>The pulse loop\<close>

text \<open>The loop runs its body exactly \<open>n - count\<close> times, and not at all when \<open>n \<le> count\<close>.\<close>

lemma pulse_loop_funpow:
  "pulse_loop count n s = (one_pulse ^^ nat (sint n - sint count)) s"
proof (induction count n s rule: pulse_loop.induct)
  case (1 count n s)
  show ?case
  proof (cases "count <s n")
    case True
    then have step: "sint (count + 1) = sint count + 1"
      by (rule sint_succ_below)
    from True have "sint count < sint n"
      by (simp add: word_sless_alt)
    then have k: "nat (sint n - sint count) = Suc (nat (sint n - sint (count + 1)))"
      using step by simp
    have "pulse_loop count n s
        = pulse_loop (count + 1) n (in_order [digitalWrite InputB HIGH, digitalWrite InputB LOW] s)"
      using True by (subst pulse_loop.simps) simp
    also have "\<dots> = (one_pulse ^^ nat (sint n - sint (count + 1)))
        (in_order [digitalWrite InputB HIGH, digitalWrite InputB LOW] s)"
      using True by (rule "1.IH")
    also have "\<dots> = (one_pulse ^^ nat (sint n - sint (count + 1))) (one_pulse s)"
      by (simp only: one_pulse_def)
    also have "\<dots> = (one_pulse ^^ nat (sint n - sint count)) s"
      by (simp only: k funpow_Suc_right o_apply)
    finally show ?thesis .
  next
    case False
    then have "nat (sint n - sint count) = 0"
      by (simp add: word_sless_alt)
    with False show ?thesis
      by (subst pulse_loop.simps) simp
  qed
qed

lemma trace_pulses: "trace ((one_pulse ^^ k) s) = trace s @ pulse_train k"
  by (induction k arbitrary: s) (simp_all add: funpow_swap1 pulse_train_Suc trace_one_pulse)

lemma pins_pulses:
  "pins ((one_pulse ^^ k) s) = (if k = 0 then pins s else (pins s)(InputB := LOW))"
  by (induction k arbitrary: s) (simp_all add: funpow_swap1 pins_one_pulse)

subsection \<open>Traces\<close>

lemma written_append: "written p (xs @ ys) = written p xs @ written p ys"
  by (induction p xs rule: written.induct) simp_all

lemma written_pulse_train:
  "written p (pulse_train n) = (if p = InputB then concat (replicate n [HIGH, LOW]) else [])"
  by (induction n) (auto simp: pulse_train_Suc)

lemma written_enable_blip: "written p (enable_blip ms) = (if p = Enable then [LOW, HIGH] else [])"
  by (simp add: enable_blip_def)

lemma replay_append: "replay (xs @ ys) lv = replay ys (replay xs lv)"
proof (induction xs arbitrary: lv)
  case Nil
  show ?case by simp
next
  case (Cons e es)
  then show ?case by (cases e) (simp_all add: fun_upd_def)
qed

lemma replay_unwritten: "written p es = [] \<Longrightarrow> replay es lv p = lv p"
proof (induction es arbitrary: lv)
  case Nil
  show ?case by simp
next
  case (Cons e es)
  then show ?case by (cases e) (simp_all split: if_splits)
qed

lemma written_take_pulse_train: "p \<noteq> InputB \<Longrightarrow> written p (take k (pulse_train n)) = []"
proof (induction n arbitrary: k)
  case 0
  then show ?case by simp
next
  case (Suc n)
  show ?case
  proof (cases k)
    case 0
    then show ?thesis by simp
  next
    case (Suc j)
    then show ?thesis
      using Suc.IH [OF Suc.prems] Suc.prems by (cases j) (simp_all add: pulse_train_Suc)
  qed
qed

lemma length_pulse_train: "length (pulse_train n) = 2 * n"
  by (induction n) (simp_all add: pulse_train_Suc)

lemma list_all_pulse_train: "list_all is_write_or_delay (pulse_train n)"
  by (induction n) (simp_all add: pulse_train_Suc)

lemma pulse_train_snoc:
  "pulse_train (Suc n) = pulse_train n @ [DigitalWrite InputB HIGH, DigitalWrite InputB LOW]"
  by (simp add: pulse_train_def flip: replicate_append_same)

lemma replay_pulse_train:
  "replay (pulse_train n) lv p = (if n = 0 \<or> p \<noteq> InputB then lv p else LOW)"
proof (induction n)
  case 0
  show ?case by simp
next
  case (Suc n)
  have "replay (pulse_train (Suc n)) lv p
      = replay [DigitalWrite InputB HIGH, DigitalWrite InputB LOW] (replay (pulse_train n) lv) p"
    by (simp only: pulse_train_snoc replay_append)
  also have "\<dots> = (if p = InputB then LOW else replay (pulse_train n) lv p)"
    by simp
  finally show ?case
    by (simp add: Suc.IH)
qed

lemma list_all_enable_blip: "list_all is_write_or_delay (enable_blip ms)"
  by (simp add: enable_blip_def)

lemma pins_distinct: "Enable \<noteq> InputA" "Enable \<noteq> InputB" "InputA \<noteq> InputB"
  "InputA \<noteq> Enable" "InputB \<noteq> Enable" "InputB \<noteq> InputA"
  by (simp_all add: Enable_def InputA_def InputB_def)

subsection \<open>What one call of MoveCommand does\<close>

lemma MoveCommand_unfold:
  "MoveCommand cfg d a s =
     (one_pulse ^^ nat (sint (abs_int d)))
       (digitalWrite InputA
          (if sint d < 0 \<and> \<not> ReverseDirection cfg \<or> 0 < sint d \<and> ReverseDirection cfg
           then HIGH else LOW)
          (if a
           then delay (ulong_of_double (times_1_5 (MinAltPulse cfg)))
                  (digitalWrite Enable HIGH
                     (delay (ulong_of_double (times_1_5 (MinAltPulse cfg)))
                        (digitalWrite Enable LOW s)))
           else s))"
  by (simp add: MoveCommand_def pulse_loop_funpow word_sless_alt)

lemma MoveCommand_trace:
  "trace (MoveCommand cfg d a s) =
     trace s
     @ (if a then enable_blip (ulong_of_double (times_1_5 (MinAltPulse cfg))) else [])
     @ [DigitalWrite InputA
          (if sint d < 0 \<and> \<not> ReverseDirection cfg \<or> 0 < sint d \<and> ReverseDirection cfg
           then HIGH else LOW)]
     @ pulse_train (nat (sint (abs_int d)))"
  by (simp add: MoveCommand_unfold trace_pulses enable_blip_def)

lemma MoveCommand_emitted:
  "emitted (MoveCommand cfg d a) s =
     (if a then enable_blip (ulong_of_double (times_1_5 (MinAltPulse cfg))) else [])
     @ [DigitalWrite InputA
          (if sint d < 0 \<and> \<not> ReverseDirection cfg \<or> 0 < sint d \<and> ReverseDirection cfg
           then HIGH else LOW)]
     @ pulse_train (nat (sint (abs_int d)))"
  by (rule emitted_append) (rule MoveCommand_trace)

lemma MoveCommand_pin_InputA:
  "pins (MoveCommand cfg d a s) InputA =
     (if sint d < 0 \<and> \<not> ReverseDirection cfg \<or> 0 < sint d \<and> ReverseDirection cfg
      then HIGH else LOW)"
  by (simp add: MoveCommand_unfold pins_pulses pins_distinct)

lemma MoveCommand_pin_InputB:
  "pins (MoveCommand cfg d a s) InputB =
     (if nat (sint (abs_int d)) = 0 then pins s InputB else LOW)"
  by (simp add: MoveCommand_unfold pins_pulses pins_distinct)

lemma MoveCommand_pin_Enable:
  "pins (MoveCommand cfg d a s) Enable = (if a then HIGH else pins s Enable)"
  by (simp add: MoveCommand_unfold pins_pulses pins_distinct)

lemma floor_times_1_5: "ulong_of_double (times_1_5 x) = nat (3 * x div 2)"
proof -
  have "\<lfloor>(of_int x :: rat) * (3 / 2)\<rfloor> = 3 * x div 2"
    by linarith
  then show ?thesis
    by (simp add: ulong_of_double_def times_1_5_def)
qed

lemma MoveCommand_pins:
  "pins (MoveCommand cfg d a s) = replay (emitted (MoveCommand cfg d a) s) (pins s)"
proof
  fix p
  show "pins (MoveCommand cfg d a s) p = replay (emitted (MoveCommand cfg d a) s) (pins s) p"
    by (cases a)
      (simp_all add: MoveCommand_emitted MoveCommand_unfold pins_pulses replay_append
        replay_pulse_train enable_blip_def)
qed

subsection \<open>The pulse line across setup and loop\<close>

lemma setup_sketch_pin_InputB: "pins (setup_sketch cfg s) InputB = LOW"
  by (simp add: setup_sketch_def Enable_def InputB_def)

lemma exec_stmt_keeps_InputB_LOW:
  "pins s InputB = LOW \<Longrightarrow> pins (exec_stmt T cfg st s) InputB = LOW"
  by (cases st) (simp_all add: MoveCommand_pin_InputB)

lemma in_order_exec_keeps_InputB_LOW:
  "pins s InputB = LOW \<Longrightarrow> pins (in_order (map (exec_stmt T cfg) ss) s) InputB = LOW"
proof (induction ss arbitrary: s)
  case Nil
  then show ?case by simp
next
  case (Cons st ss)
  from Cons.prems have "pins (exec_stmt T cfg st s) InputB = LOW"
    by (rule exec_stmt_keeps_InputB_LOW)
  then have "pins (in_order (map (exec_stmt T cfg) ss) (exec_stmt T cfg st s)) InputB = LOW"
    by (rule Cons.IH)
  then show ?case by simp
qed

lemma exec_stmts_keeps_InputB_LOW:
  "pins s InputB = LOW \<Longrightarrow> pins (exec_stmts T cfg ss s) InputB = LOW"
  unfolding exec_stmts_def by (rule in_order_exec_keeps_InputB_LOW)

lemma loops_keep_InputB_LOW:
  "pins s InputB = LOW \<Longrightarrow> pins ((loop T cfg ^^ n) s) InputB = LOW"
  by (induction n) (simp_all add: loop_def exec_stmts_keeps_InputB_LOW)

section \<open>The claims\<close>

text \<open>
  C1. At the least \<open>int\<close> of a 16-bit board, a nonzero distance of magnitude 32768,
  MoveCommand writes the direction line and emits no pulse at all.
\<close>

theorem MoveCommand_least_int_16_emits_no_pulse:
  "emitted (MoveCommand default_config (- 32768 :: 16 word) False) power_on = [DigitalWrite InputA HIGH]
   \<and> written InputB (emitted (MoveCommand default_config (- 32768 :: 16 word) False) power_on) = []
   \<and> nat \<bar>sint (- 32768 :: 16 word)\<bar> = 32768"
proof -
  have "abs_int (- 32768 :: 16 word) = - 32768"
    by (simp add: abs_int_def word_sless_alt)
  then have "nat (sint (abs_int (- 32768 :: 16 word))) = 0"
    by simp
  then show ?thesis
    by (simp add: MoveCommand_emitted default_config_def pins_distinct)
qed

text \<open>
  Away from the least \<open>int\<close>, the levels written to the pulse line are HIGH then LOW,
  as many times as the magnitude of the distance, and nothing else is written to it.
\<close>

lemma MoveCommand_pulses:
  fixes d :: "'a::len word"
  assumes "d \<noteq> INT_MIN"
  shows "written InputB (emitted (MoveCommand cfg d a) s) = concat (replicate (nat \<bar>sint d\<bar>) [HIGH, LOW])"
  by (simp add: MoveCommand_emitted written_append written_enable_blip written_pulse_train
      pins_distinct sint_abs_int [OF assms])

text \<open>
  C2. Every call writes the direction line exactly once: HIGH if the distance is negative
  and the direction is not reversed, or positive and the direction is reversed, and LOW
  otherwise. That is the level of the line when the call returns. A distance of zero gives
  LOW whatever the configuration.
\<close>

theorem MoveCommand_direction:
  "written InputA (emitted (MoveCommand cfg d a) s) =
     [if sint d < 0 \<and> \<not> ReverseDirection cfg \<or> 0 < sint d \<and> ReverseDirection cfg
      then HIGH else LOW]
   \<and> pins (MoveCommand cfg d a s) InputA =
     (if sint d < 0 \<and> \<not> ReverseDirection cfg \<or> 0 < sint d \<and> ReverseDirection cfg
      then HIGH else LOW)
   \<and> written InputA (emitted (MoveCommand cfg 0 a) s) = [LOW]
   \<and> pins (MoveCommand cfg 0 a s) InputA = LOW"
  by (simp add: MoveCommand_emitted MoveCommand_pin_InputA written_append written_enable_blip
      written_pulse_train pins_distinct)

theorem MoveCommand_direction_witness:
  "written InputA (emitted (MoveCommand default_config (- 3 :: 16 word) True) power_on) = [HIGH]
   \<and> pins (MoveCommand default_config (- 3 :: 16 word) True power_on) InputA = HIGH
   \<and> written InputA (emitted (MoveCommand default_config (0 :: 16 word) True) power_on) = [LOW]
   \<and> pins (MoveCommand default_config (0 :: 16 word) True power_on) InputA = LOW"
  using MoveCommand_direction [of default_config "- 3 :: 16 word" True power_on]
  by (simp add: default_config_def)

text \<open>
  C3. With a non-negative MinAltPulse, a call at the alternate speed first writes the enable
  line LOW, delays, writes it HIGH and delays again, then writes the direction line, then
  emits the pulses. Both delays are the whole number of milliseconds in MinAltPulse*1.5:
  the fractional part of the product is dropped by the conversion to the argument of
  \<open>delay\<close>. So the delay is MinAltPulse*1.5 itself when MinAltPulse is even, and half a
  millisecond less when it is odd.
\<close>

theorem MoveCommand_alt_speed_blip:
  assumes "0 \<le> MinAltPulse cfg"
  shows "emitted (MoveCommand cfg d True) s =
           [DigitalWrite Enable LOW,
            Delay (nat (3 * MinAltPulse cfg div 2)),
            DigitalWrite Enable HIGH,
            Delay (nat (3 * MinAltPulse cfg div 2)),
            DigitalWrite InputA
              (if sint d < 0 \<and> \<not> ReverseDirection cfg \<or> 0 < sint d \<and> ReverseDirection cfg
               then HIGH else LOW)]
           @ pulse_train (nat (sint (abs_int d)))
         \<and> of_nat (nat (3 * MinAltPulse cfg div 2)) =
             (if even (MinAltPulse cfg) then times_1_5 (MinAltPulse cfg)
              else times_1_5 (MinAltPulse cfg) - 1 / 2)"
proof -
  have "of_nat (nat (3 * MinAltPulse cfg div 2)) = (of_int (3 * MinAltPulse cfg div 2) :: rat)"
    using assms by simp
  also have "\<dots> = (if even (MinAltPulse cfg) then times_1_5 (MinAltPulse cfg)
              else times_1_5 (MinAltPulse cfg) - 1 / 2)"
  proof (cases "even (MinAltPulse cfg)")
    case True
    then obtain k where "MinAltPulse cfg = 2 * k" ..
    then show ?thesis by (simp add: times_1_5_def)
  next
    case False
    then obtain k where "MinAltPulse cfg = 2 * k + 1" by (rule oddE)
    moreover have "(3 * (2 * k + 1)) div 2 = 3 * k + 1" by presburger
    ultimately show ?thesis by (simp add: times_1_5_def field_simps)
  qed
  finally show ?thesis
    by (simp add: MoveCommand_emitted floor_times_1_5 enable_blip_def)
qed

theorem MoveCommand_alt_speed_blip_witness:
  "0 \<le> MinAltPulse default_config
   \<and> emitted (MoveCommand default_config (- 2 :: 16 word) True) power_on =
       [DigitalWrite Enable LOW, Delay 15, DigitalWrite Enable HIGH, Delay 15,
        DigitalWrite InputA HIGH,
        DigitalWrite InputB HIGH, DigitalWrite InputB LOW,
        DigitalWrite InputB HIGH, DigitalWrite InputB LOW]
   \<and> times_1_5 (MinAltPulse default_config) = 15"
proof -
  have h: "0 \<le> MinAltPulse default_config"
    by (simp add: default_config_def)
  have n: "nat (sint (abs_int (- 2 :: 16 word))) = Suc (Suc 0)"
    by (simp add: abs_int_def word_sless_alt)
  show ?thesis
    using h MoveCommand_alt_speed_blip [OF h, of "- 2 :: 16 word" power_on]
    by (simp add: default_config_def n pulse_train_Suc times_1_5_def)
qed

theorem MoveCommand_alt_delay_odd_counterexample:
  "emitted (MoveCommand (default_config\<lparr>MinAltPulse := 11\<rparr>) (1 :: 16 word) True) power_on =
     [DigitalWrite Enable LOW, Delay 16, DigitalWrite Enable HIGH, Delay 16,
      DigitalWrite InputA LOW,
      DigitalWrite InputB HIGH, DigitalWrite InputB LOW]
   \<and> times_1_5 11 = 33 / 2
   \<and> (of_nat 16 :: rat) < times_1_5 11"
proof -
  have n: "nat (sint (abs_int (1 :: 16 word))) = Suc 0"
    by (simp add: abs_int_def word_sless_alt)
  have k: "ulong_of_double (times_1_5 11) = 16"
    by (simp add: floor_times_1_5)
  have "times_1_5 11 = 33 / 2"
    by (simp add: times_1_5_def)
  then show ?thesis
    by (simp add: MoveCommand_emitted k enable_blip_def default_config_def n pulse_train_Suc)
qed

text \<open>
  C4. For a nonzero distance, the call made with the direction reversed writes to the
  direction line the level opposite to the one written by the call made without, and
  leaves the line at the opposite level.
\<close>

theorem ReverseDirection_inverts_direction:
  assumes "d \<noteq> 0"
  shows "written InputA (emitted (MoveCommand (cfg\<lparr>ReverseDirection := \<not> ReverseDirection cfg\<rparr>) d a) s) =
           map invert (written InputA (emitted (MoveCommand cfg d a) s))
         \<and> pins (MoveCommand (cfg\<lparr>ReverseDirection := \<not> ReverseDirection cfg\<rparr>) d a s) InputA =
           invert (pins (MoveCommand cfg d a s) InputA)"
proof -
  have "sint d \<noteq> 0"
    using assms by (simp add: signed_eq_0_iff)
  then show ?thesis
    by (auto simp: MoveCommand_emitted MoveCommand_pin_InputA written_append written_enable_blip
        written_pulse_train pins_distinct)
qed

theorem ReverseDirection_inverts_direction_witness:
  "(5 :: 16 word) \<noteq> 0
   \<and> written InputA (emitted (MoveCommand (default_config\<lparr>ReverseDirection := True\<rparr>) (5 :: 16 word) False) power_on) = [HIGH]
   \<and> written InputA (emitted (MoveCommand default_config (5 :: 16 word) False) power_on) = [LOW]
   \<and> pins (MoveCommand (default_config\<lparr>ReverseDirection := True\<rparr>) (5 :: 16 word) False power_on) InputA = HIGH
   \<and> pins (MoveCommand default_config (5 :: 16 word) False power_on) InputA = LOW"
proof -
  have h: "(5 :: 16 word) \<noteq> 0"
    by simp
  have c: "ReverseDirection default_config = False"
    by (simp add: default_config_def)
  have l: "written InputA (emitted (MoveCommand default_config (5 :: 16 word) False) power_on) = [LOW]"
    by (simp add: MoveCommand_emitted c written_pulse_train pins_distinct)
  have p: "pins (MoveCommand default_config (5 :: 16 word) False power_on) InputA = LOW"
    by (simp add: MoveCommand_pin_InputA c)
  show ?thesis
    using h ReverseDirection_inverts_direction [OF h, of default_config False power_on]
    by (simp add: c l p)
qed

text \<open>
  C5. The body of \<open>loop\<close> is the move table of the design comment with every distance
  multiplied by 100: one call of MoveCommand per row, in the order of the table, with the
  sign and the alternate-speed mark of the row, followed by one dwell unless the row is
  joined to the next, and so \<open>loop\<close> runs exactly these statements.
\<close>

theorem loop_body_is_move_table_times_100:
  "loop_body = calls_of_table 100 move_table
   \<and> loop T cfg = exec_stmts T cfg (calls_of_table 100 move_table)"
  by (simp add: loop_def loop_body_def move_table_def)

theorem loop_body_is_not_move_table_counterexample:
  "loop_body \<noteq> calls_of_table 1 move_table
   \<and> hd loop_body = Move 1000 False
   \<and> hd (calls_of_table 1 move_table) = Move 10 False"
  by (simp add: loop_body_def move_table_def)

text \<open>
  C6. A call at the normal speed writes nothing to the enable line, whose level is the
  same after the call as before.
\<close>

theorem MoveCommand_normal_speed_leaves_enable:
  "written Enable (emitted (MoveCommand cfg d False) s) = []
   \<and> pins (MoveCommand cfg d False s) Enable = pins s Enable"
  by (simp add: MoveCommand_emitted MoveCommand_pin_Enable written_pulse_train pins_distinct)

text \<open>
  C7. The events of a call after its write to the direction line are the pulse train,
  which holds no write to the direction line; at every point of the call from that write
  on, the direction line is at the level written, and it still is when the call returns.
\<close>

theorem direction_stable_during_pulse_train:
  "drop (if a then 5 else 1) (emitted (MoveCommand cfg d a) s) = pulse_train (nat (sint (abs_int d)))
   \<and> written InputA (drop (if a then 5 else 1) (emitted (MoveCommand cfg d a) s)) = []
   \<and> (\<forall>k \<ge> (if a then 5 else 1).
        replay (take k (emitted (MoveCommand cfg d a) s)) (pins s) InputA =
          (if sint d < 0 \<and> \<not> ReverseDirection cfg \<or> 0 < sint d \<and> ReverseDirection cfg
           then HIGH else LOW))
   \<and> replay (emitted (MoveCommand cfg d a) s) (pins s) = pins (MoveCommand cfg d a s)"
proof -
  define lvl where "lvl =
    (if sint d < 0 \<and> \<not> ReverseDirection cfg \<or> 0 < sint d \<and> ReverseDirection cfg
     then HIGH else LOW)"
  define pre where "pre =
    (if a then enable_blip (ulong_of_double (times_1_5 (MinAltPulse cfg))) else [])
    @ [DigitalWrite InputA lvl]"
  define train where "train = pulse_train (nat (sint (abs_int d)))"
  have em: "emitted (MoveCommand cfg d a) s = pre @ train"
    by (simp add: MoveCommand_emitted pre_def train_def lvl_def)
  have len: "length pre = (if a then 5 else 1)"
    by (simp add: pre_def enable_blip_def)
  have pre: "replay pre (pins s) InputA = lvl"
    by (simp add: pre_def enable_blip_def replay_append)
  have rest: "drop (if a then 5 else 1) (emitted (MoveCommand cfg d a) s) = train"
    by (simp add: em flip: len)
  have quiet: "written InputA train = []"
    by (simp add: train_def written_pulse_train pins_distinct)
  have stable: "replay (take k (emitted (MoveCommand cfg d a) s)) (pins s) InputA = lvl"
    if "(if a then 5 else 1) \<le> k" for k
  proof -
    from that have "length pre \<le> k"
      by (simp only: len)
    then have "take k (pre @ train) = pre @ take (k - length pre) train"
      by simp
    then have "replay (take k (emitted (MoveCommand cfg d a) s)) (pins s) InputA
        = replay (take (k - length pre) train) (replay pre (pins s)) InputA"
      by (simp only: em replay_append)
    also have "\<dots> = replay pre (pins s) InputA"
      by (rule replay_unwritten) (simp add: train_def written_take_pulse_train pins_distinct)
    finally show ?thesis
      by (simp only: pre)
  qed
  from rest quiet stable show ?thesis
    by (simp add: MoveCommand_pins train_def lvl_def)
qed

theorem direction_stable_during_pulse_train_witness:
  "drop 1 (emitted (MoveCommand default_config (- 2 :: 16 word) False) power_on) =
     [DigitalWrite InputB HIGH, DigitalWrite InputB LOW, DigitalWrite InputB HIGH, DigitalWrite InputB LOW]
   \<and> replay (take 4 (emitted (MoveCommand default_config (- 2 :: 16 word) False) power_on)) (pins power_on) InputA = HIGH"
proof -
  have n: "nat (sint (abs_int (- 2 :: 16 word))) = Suc (Suc 0)"
    by (simp add: abs_int_def word_sless_alt)
  have c: "ReverseDirection default_config = False"
    by (simp add: default_config_def)
  show ?thesis
    using direction_stable_during_pulse_train [of False default_config "- 2 :: 16 word" power_on]
    by (simp add: n c pulse_train_Suc)
qed

text \<open>
  C8. MoveCommand is a total function of the configuration, the distance, the speed flag
  and the hardware state: a call returns a state, after a finite run made of the optional
  blip, the write to the direction line and as many passes through the loop as the value
  of abs(distance), which is at most the magnitude of the distance and less than
  \<open>2 ^ (LENGTH('a) - 1)\<close>. The run appends to the trace four events for the blip, one for
  the direction and two for each pass, all of them writes or delays.
\<close>

theorem MoveCommand_finite_run:
  fixes d :: "'a::len word"
  shows "MoveCommand cfg d a s =
           (one_pulse ^^ nat (sint (abs_int d)))
             (in_order
                [if a
                 then in_order [digitalWrite Enable LOW,
                                delay (ulong_of_double (times_1_5 (MinAltPulse cfg))),
                                digitalWrite Enable HIGH,
                                delay (ulong_of_double (times_1_5 (MinAltPulse cfg)))]
                 else in_order [],
                 if d <s 0 \<and> \<not> ReverseDirection cfg \<or> 0 <s d \<and> ReverseDirection cfg
                 then digitalWrite InputA HIGH
                 else digitalWrite InputA LOW] s)
         \<and> nat (sint (abs_int d)) \<le> nat \<bar>sint d\<bar>
         \<and> nat (sint (abs_int d)) < 2 ^ (LENGTH('a) - 1)
         \<and> trace (MoveCommand cfg d a s) = trace s @ emitted (MoveCommand cfg d a) s
         \<and> length (emitted (MoveCommand cfg d a) s) =
             (if a then 4 else 0) + 1 + 2 * nat (sint (abs_int d))
         \<and> list_all is_write_or_delay (emitted (MoveCommand cfg d a) s)"
proof -
  have run: "MoveCommand cfg d a s =
           (one_pulse ^^ nat (sint (abs_int d)))
             (in_order
                [if a
                 then in_order [digitalWrite Enable LOW,
                                delay (ulong_of_double (times_1_5 (MinAltPulse cfg))),
                                digitalWrite Enable HIGH,
                                delay (ulong_of_double (times_1_5 (MinAltPulse cfg)))]
                 else in_order [],
                 if d <s 0 \<and> \<not> ReverseDirection cfg \<or> 0 <s d \<and> ReverseDirection cfg
                 then digitalWrite InputA HIGH
                 else digitalWrite InputA LOW] s)"
    by (simp add: MoveCommand_def pulse_loop_funpow)
  have tr: "trace (MoveCommand cfg d a s) = trace s @ emitted (MoveCommand cfg d a) s"
    by (simp only: MoveCommand_trace MoveCommand_emitted)
  have len: "length (emitted (MoveCommand cfg d a) s) =
             (if a then 4 else 0) + 1 + 2 * nat (sint (abs_int d))"
    by (simp add: MoveCommand_emitted length_pulse_train enable_blip_def)
  have ev: "list_all is_write_or_delay (emitted (MoveCommand cfg d a) s)"
    by (simp add: MoveCommand_emitted list_all_pulse_train list_all_enable_blip)
  from run tr len ev iterations_le [of d] iterations_bound [of d] show ?thesis
    by (simp only: simp_thms)
qed

theorem MoveCommand_finite_run_witness:
  "length (emitted (MoveCommand default_config (- 3 :: 16 word) True) power_on) = 11
   \<and> trace (MoveCommand default_config (- 3 :: 16 word) True power_on) =
       [DigitalWrite Enable LOW, Delay 15, DigitalWrite Enable HIGH, Delay 15,
        DigitalWrite InputA HIGH,
        DigitalWrite InputB HIGH, DigitalWrite InputB LOW,
        DigitalWrite InputB HIGH, DigitalWrite InputB LOW,
        DigitalWrite InputB HIGH, DigitalWrite InputB LOW]"
proof -
  have n: "nat (sint (abs_int (- 3 :: 16 word))) = Suc (Suc (Suc 0))"
    by (simp add: abs_int_def word_sless_alt)
  have k: "ulong_of_double (times_1_5 10) = 15"
    by (simp add: floor_times_1_5)
  have e: "emitted (MoveCommand default_config (- 3 :: 16 word) True) power_on =
       [DigitalWrite Enable LOW, Delay 15, DigitalWrite Enable HIGH, Delay 15,
        DigitalWrite InputA HIGH,
        DigitalWrite InputB HIGH, DigitalWrite InputB LOW,
        DigitalWrite InputB HIGH, DigitalWrite InputB LOW,
        DigitalWrite InputB HIGH, DigitalWrite InputB LOW]"
    by (simp add: MoveCommand_emitted n k pulse_train_Suc enable_blip_def default_config_def)
  from MoveCommand_finite_run [of default_config "- 3 :: 16 word" True power_on]
  have "trace (MoveCommand default_config (- 3 :: 16 word) True power_on) =
      trace power_on @ emitted (MoveCommand default_config (- 3 :: 16 word) True) power_on"
    by (elim conjE)
  moreover have "trace power_on = []"
    by (simp add: power_on_def)
  ultimately show ?thesis
    by (simp add: e)
qed

text \<open>
  C9. At the least value of \<open>int\<close>, whatever its width, abs(distance) is that same
  negative value, so the loop is not entered: the call emits no pulse for this nonzero
  distance, and writes the direction line as for any negative distance.
\<close>

theorem MoveCommand_INT_MIN_emits_no_pulse:
  "(INT_MIN :: 'a::len word) \<noteq> 0
   \<and> sint (INT_MIN :: 'a word) = - (2 ^ (LENGTH('a) - 1))
   \<and> abs_int (INT_MIN :: 'a word) = INT_MIN
   \<and> sint (abs_int (INT_MIN :: 'a word)) < 0
   \<and> pulse_loop 0 (abs_int (INT_MIN :: 'a word)) s = s
   \<and> written InputB (emitted (MoveCommand cfg (INT_MIN :: 'a word) a) s) = []
   \<and> written InputA (emitted (MoveCommand cfg (INT_MIN :: 'a word) a) s) =
       [if ReverseDirection cfg then LOW else HIGH]
   \<and> emitted (MoveCommand cfg (INT_MIN :: 'a word) a) s =
       (if a then enable_blip (ulong_of_double (times_1_5 (MinAltPulse cfg))) else [])
       @ [DigitalWrite InputA (if ReverseDirection cfg then LOW else HIGH)]"
proof -
  have neg: "sint (abs_int (INT_MIN :: 'a word)) < 0"
    by (simp add: abs_int_INT_MIN sint_INT_MIN)
  have loop: "pulse_loop 0 (abs_int (INT_MIN :: 'a word)) s = s"
    by (simp add: pulse_loop_funpow iterations_INT_MIN)
  have em: "emitted (MoveCommand cfg (INT_MIN :: 'a word) a) s =
       (if a then enable_blip (ulong_of_double (times_1_5 (MinAltPulse cfg))) else [])
       @ [DigitalWrite InputA (if ReverseDirection cfg then LOW else HIGH)]"
    by (simp add: MoveCommand_emitted iterations_INT_MIN sint_INT_MIN)
  have b: "written InputB (emitted (MoveCommand cfg (INT_MIN :: 'a word) a) s) = []"
    by (simp add: em written_append written_enable_blip pins_distinct)
  have a: "written InputA (emitted (MoveCommand cfg (INT_MIN :: 'a word) a) s) =
       [if ReverseDirection cfg then LOW else HIGH]"
    by (simp add: em written_append written_enable_blip pins_distinct)
  from INT_MIN_nonzero [where 'a = 'a] sint_INT_MIN [where 'a = 'a] abs_int_INT_MIN [where 'a = 'a]
    neg loop b a em
  show ?thesis
    by (simp only: simp_thms)
qed

theorem MoveCommand_INT_MIN_emits_no_pulse_witness:
  "(INT_MIN :: 16 word) = - 32768
   \<and> (INT_MIN :: 16 word) \<noteq> 0
   \<and> sint (INT_MIN :: 16 word) = - 32768
   \<and> abs_int (INT_MIN :: 16 word) = INT_MIN
   \<and> emitted (MoveCommand default_config (INT_MIN :: 16 word) False) power_on = [DigitalWrite InputA HIGH]"
proof -
  have v: "(INT_MIN :: 16 word) = - 32768"
    by (simp add: INT_MIN_def)
  have c: "ReverseDirection default_config = False"
    by (simp add: default_config_def)
  show ?thesis
    using v MoveCommand_INT_MIN_emits_no_pulse [where 'a = 16, of power_on default_config False]
    by (simp add: c)
qed

text \<open>
  C10. The pulse line is LOW when \<open>setup\<close> returns. A call of MoveCommand that starts with
  the pulse line LOW returns with it LOW, and so does every call that emits a pulse. So
  the line is LOW after \<open>setup\<close> followed by any moves and dwells, and after any number of
  rounds of \<open>loop\<close>.
\<close>

theorem pulse_line_LOW_between_moves:
  "pins (setup_sketch cfg s) InputB = LOW
   \<and> (pins s InputB = LOW \<longrightarrow> pins (MoveCommand cfg d a s) InputB = LOW)
   \<and> (0 < sint (abs_int d) \<longrightarrow> pins (MoveCommand cfg d a s) InputB = LOW)
   \<and> pins (exec_stmts T cfg ss (setup_sketch cfg s)) InputB = LOW
   \<and> pins (sketch T cfg n s) InputB = LOW"
proof -
  have "pins (exec_stmts T cfg ss (setup_sketch cfg s)) InputB = LOW"
    by (rule exec_stmts_keeps_InputB_LOW) (rule setup_sketch_pin_InputB)
  moreover have "pins (sketch T cfg n s) InputB = LOW"
    unfolding sketch_def by (rule loops_keep_InputB_LOW) (rule setup_sketch_pin_InputB)
  ultimately show ?thesis
    by (simp add: setup_sketch_pin_InputB MoveCommand_pin_InputB)
qed

theorem pulse_line_LOW_between_moves_witness:
  "pins power_on InputB = LOW
   \<and> 0 < sint (abs_int (- 2 :: 16 word))
   \<and> pins (MoveCommand default_config (0 :: 16 word) False power_on) InputB = LOW
   \<and> pins (MoveCommand default_config (- 2 :: 16 word) False power_on) InputB = LOW
   \<and> pins (exec_stmts TYPE(16) default_config [Move 3 True, Move (- 2) False, Dwell]
        (setup_sketch default_config power_on)) InputB = LOW
   \<and> pins (sketch TYPE(16) default_config 2 power_on) InputB = LOW"
proof -
  have h: "pins power_on InputB = LOW"
    by (simp add: power_on_def level_unset_def)
  have n: "0 < sint (abs_int (- 2 :: 16 word))"
    by (simp add: abs_int_def word_sless_alt)
  show ?thesis
    using h n
      pulse_line_LOW_between_moves [of default_config power_on "0 :: 16 word" False
        "TYPE(16)" "[Move 3 True, Move (- 2) False, Dwell]" 2]
      pulse_line_LOW_between_moves [of default_config power_on "- 2 :: 16 word" False
        "TYPE(16)" "[]" 0]
    by simp
qed

end
